theory Spec2Isabelle
  imports Complex_Main "HOL-Library.Sublist"
begin

section \<open>Data model\<close>

text \<open>
  The transcript types of the tutor client (\<^verbatim>\<open>types.ts\<close>): a speaker tag and an entry
  with a text and an optional image. The fields \<^verbatim>\<open>text\<close> and \<^verbatim>\<open>image\<close> are written
  \<open>entry_text\<close> and \<open>entry_image\<close>. Strings are lists of characters; JavaScript's
  truthiness of a string is "not empty", of an optional string "present and not empty".
\<close>

datatype Speaker = USER | TUTOR

record TranscriptEntry =
  speaker :: Speaker
  entry_text :: string
  entry_image :: "string option"

datatype Status = IDLE | CONNECTING | LISTENING | THINKING | SPEAKING

text \<open>
  A decoded audio buffer is known to the scheduler only through its duration, in seconds.
  Times are JavaScript numbers; they are modelled as real numbers. An entry of the
  playback queue pairs a buffer with its start time; a source node is what
  \<^verbatim>\<open>createBufferSource\<close> returns, with the buffer it plays and the time passed to
  \<^verbatim>\<open>source.start\<close>.
\<close>

record AudioBuffer =
  duration :: real

record ScheduledPlayback =
  buffer :: AudioBuffer
  startTime :: real

record AudioBufferSourceNode =
  node_buffer :: AudioBuffer
  started_at :: real

text \<open>
  The server content of an inbound message, with the five fields that \<^verbatim>\<open>onmessage\<close>
  destructures. A transcription field holds the fragment's text when it is present. A
  part of the model turn is reduced to \<^verbatim>\<open>inlineData?.data\<close>: the base64 payload when
  the part has one. A message is its \<^verbatim>\<open>serverContent\<close>, when it has one.
\<close>

type_synonym Part = "string option"

record ServerContent =
  inputTranscription :: "string option"
  outputTranscription :: "string option"
  modelTurn :: "Part list option"
  turnComplete :: bool
  interrupted :: bool

type_synonym LiveServerMessage = "ServerContent option"

text \<open>
  The state of the \<^verbatim>\<open>App\<close> component: its React state (\<open>isSessionActive\<close>,
  \<open>status\<close>, \<open>transcript\<close>) and its refs. \<open>sessionPromiseRef\<close> and
  \<open>outputAudioContextRef\<close> say whether the ref holds an object (is not null).
  \<open>audioSourcesRef\<close> is the set of live source nodes, in insertion order.

  Two fields make effects of the code observable. \<open>closureTranscript\<close> is the value of
  the variable \<^verbatim>\<open>transcript\<close> inside the session callbacks: \<^verbatim>\<open>handleToggleSession\<close> is a
  \<^verbatim>\<open>useCallback\<close> closure over the \<^verbatim>\<open>transcript\<close> of the render that created it, and
  the callbacks handed to \<^verbatim>\<open>ai.live.connect\<close> are created once, inside that call, so
  for the whole session \<^verbatim>\<open>transcript\<close> in \<^verbatim>\<open>onmessage\<close> is the array the component
  held when the session was started. \<open>stoppedSources\<close> logs the source nodes on which
  \<^verbatim>\<open>stop()\<close> has been called.
\<close>

record App =
  isSessionActive :: bool
  status :: Status
  transcript :: "TranscriptEntry list"
  sessionPromiseRef :: bool
  outputAudioContextRef :: bool
  userTranscriptionRef :: string
  modelTranscriptionRef :: string
  audioPlaybackQueueRef :: "ScheduledPlayback list"
  nextStartTimeRef :: real
  audioSourcesRef :: "AudioBufferSourceNode list"
  closureTranscript :: "TranscriptEntry list"
  stoppedSources :: "AudioBufferSourceNode list"

definition initialState :: App where
  "initialState =
     \<lparr>isSessionActive = False, status = IDLE, transcript = [],
      sessionPromiseRef = False, outputAudioContextRef = False,
      userTranscriptionRef = [], modelTranscriptionRef = [],
      audioPlaybackQueueRef = [], nextStartTimeRef = 0, audioSourcesRef = [],
      closureTranscript = [], stoppedSources = []\<rparr>"

section \<open>Playback scheduler\<close>

text \<open>
  \<^verbatim>\<open>processAudioPlayback\<close>: while the queue is not empty, shift its first entry, create
  a source for its buffer, start it at the entry's start time and add it to the set of
  live sources. Without an output context the function returns at once.
\<close>

fun drain :: "ScheduledPlayback list \<Rightarrow> AudioBufferSourceNode list \<Rightarrow> AudioBufferSourceNode list" where
  "drain [] sources = sources"
| "drain (q # queue) sources =
     drain queue (sources @ [\<lparr>node_buffer = buffer q, started_at = startTime q\<rparr>])"

definition processAudioPlayback :: "App \<Rightarrow> App" where
  "processAudioPlayback s =
     (if \<not> outputAudioContextRef s then s
      else s\<lparr>audioSourcesRef := drain (audioPlaybackQueueRef s) (audioSourcesRef s),
             audioPlaybackQueueRef := []\<rparr>)"

text \<open>
  \<^verbatim>\<open>stopAllPlayback\<close>: stop every live source (a failing \<^verbatim>\<open>stop()\<close> is caught and
  logged), clear the set, empty the queue and reset the next start time.
\<close>

definition stopAllPlayback :: "App \<Rightarrow> App" where
  "stopAllPlayback s =
     s\<lparr>stoppedSources := stoppedSources s @ audioSourcesRef s,
       audioSourcesRef := [],
       audioPlaybackQueueRef := [],
       nextStartTimeRef := 0\<rparr>"

text \<open>
  The enqueue of \<^verbatim>\<open>onmessage\<close>: read the output clock, move the next start time up to
  it, push the buffer with that start time, and advance the next start time by the
  buffer's duration.
\<close>

definition enqueue :: "real \<Rightarrow> AudioBuffer \<Rightarrow> App \<Rightarrow> App" where
  "enqueue currentTime audioBuffer s =
     (let start = max (nextStartTimeRef s) currentTime
      in s\<lparr>audioPlaybackQueueRef :=
               audioPlaybackQueueRef s @ [\<lparr>buffer = audioBuffer, startTime = start\<rparr>],
             nextStartTimeRef := start + duration audioBuffer\<rparr>)"

text \<open>
  A run of enqueue operations, each followed by \<^verbatim>\<open>processAudioPlayback\<close> as in
  \<^verbatim>\<open>onmessage\<close>. An arrival is the clock reading at the enqueue and the decoded buffer.
\<close>

fun enqueueAll :: "(real \<times> AudioBuffer) list \<Rightarrow> App \<Rightarrow> App" where
  "enqueueAll [] s = s"
| "enqueueAll (a # arrivals) s =
     enqueueAll arrivals (processAudioPlayback (enqueue (fst a) (snd a) s))"

section \<open>Transcript reconciler\<close>

text \<open>
  \<^verbatim>\<open>String.prototype.trim\<close> removes white space at both ends. Characters are bytes
  here, so the white space is tab, line feed, vertical tab, form feed, carriage return,
  space and the no-break space.
\<close>

definition isWhiteSpace :: "char \<Rightarrow> bool" where
  "isWhiteSpace c =
     (c = CHR 0x09 \<or> c = CHR 0x0A \<or> c = CHR 0x0B \<or> c = CHR 0x0C \<or> c = CHR 0x0D
      \<or> c = CHR 0x20 \<or> c = CHR 0xA0)"

definition trim :: "string \<Rightarrow> string" where
  "trim str = rev (dropWhile isWhiteSpace (rev (dropWhile isWhiteSpace str)))"

definition truthy :: "string \<Rightarrow> bool" where
  "truthy str = (str \<noteq> [])"

text \<open>
  \<^verbatim>\<open>transcript[transcript.length - 1]\<close>: the last element, \<^verbatim>\<open>undefined\<close> for the empty
  array.
\<close>

definition lastEntryOf :: "TranscriptEntry list \<Rightarrow> TranscriptEntry option" where
  "lastEntryOf entries = (if entries = [] then None else Some (last entries))"

text \<open>
  The test of the merge branch:
  \<^verbatim>\<open>lastEntry?.speaker === Speaker.USER && lastEntry.image && !lastEntry.text && fullUserInput\<close>.
\<close>

definition mergeTest :: "TranscriptEntry option \<Rightarrow> string \<Rightarrow> bool" where
  "mergeTest lastEntry fullUserInput =
     (case lastEntry of
        None \<Rightarrow> False
      | Some e \<Rightarrow>
          speaker e = USER
          \<and> (case entry_image e of None \<Rightarrow> False | Some img \<Rightarrow> truthy img)
          \<and> \<not> truthy (entry_text e)
          \<and> truthy fullUserInput)"

datatype error = TypeError

text \<open>
  The state updater of the merge branch copies the array and assigns the text of its last
  element. On the empty array \<^verbatim>\<open>updated[updated.length - 1]\<close> is \<^verbatim>\<open>undefined\<close> and the
  assignment raises a TypeError.
\<close>

definition mergeUpdater :: "string \<Rightarrow> TranscriptEntry list \<Rightarrow> error + TranscriptEntry list" where
  "mergeUpdater fullUserInput prev =
     (if prev = [] then Inl TypeError
      else Inr (butlast prev @ [(last prev)\<lparr>entry_text := fullUserInput\<rparr>]))"

text \<open>The entries pushed to \<^verbatim>\<open>newEntries\<close> in either branch.\<close>

definition newEntriesOf :: "bool \<Rightarrow> string \<Rightarrow> string \<Rightarrow> TranscriptEntry list" where
  "newEntriesOf merging fullUserInput fullModelOutput =
     (if merging then []
      else if truthy fullUserInput
        then [\<lparr>speaker = USER, entry_text = fullUserInput, entry_image = None\<rparr>]
        else [])
     @ (if truthy fullModelOutput
        then [\<lparr>speaker = TUTOR, entry_text = fullModelOutput, entry_image = None\<rparr>]
        else [])"

text \<open>
  The turn-complete branch of \<^verbatim>\<open>onmessage\<close>. The last entry is read from the
  \<^verbatim>\<open>transcript\<close> of the enclosing closure; the two state updates are applied, in order,
  to the component's current transcript. A TypeError of the first updater ends the run of
  the component. The entries of the closure's transcript are objects of an earlier
  session, none of them an entry of the current transcript (which every start rebuilds
  from the empty array), so the assignment of the updater does not reach them.
\<close>

definition commitTurn :: "App \<Rightarrow> error + App" where
  "commitTurn s =
     (let fullUserInput = trim (userTranscriptionRef s);
          fullModelOutput = trim (modelTranscriptionRef s);
          lastEntry = lastEntryOf (closureTranscript s);
          merging = mergeTest lastEntry fullUserInput;
          newEntries = newEntriesOf merging fullUserInput fullModelOutput
      in case (if merging then mergeUpdater fullUserInput (transcript s)
               else Inr (transcript s)) of
           Inl e \<Rightarrow> Inl e
         | Inr updated \<Rightarrow>
             Inr (s\<lparr>transcript := updated @ newEntries,
                    userTranscriptionRef := [],
                    modelTranscriptionRef := [],
                    status := LISTENING\<rparr>))"

section \<open>Session callbacks\<close>

text \<open>\<^verbatim>\<open>modelTurn?.parts[0]?.inlineData?.data\<close> as a condition.\<close>

definition hasAudio :: "Part list option \<Rightarrow> bool" where
  "hasAudio turn =
     (case turn of
        None \<Rightarrow> False
      | Some parts \<Rightarrow>
          (case parts of
             [] \<Rightarrow> False
           | part # _ \<Rightarrow> (case part of None \<Rightarrow> False | Some d \<Rightarrow> truthy d)))"

text \<open>The two accumulators take the fragments of the message.\<close>

definition accumulate :: "ServerContent \<Rightarrow> App \<Rightarrow> App" where
  "accumulate content s =
     (let s1 = (case inputTranscription content of
                  None \<Rightarrow> s
                | Some fragment \<Rightarrow>
                    s\<lparr>userTranscriptionRef := userTranscriptionRef s @ fragment\<rparr>)
      in case outputTranscription content of
           None \<Rightarrow> s1
         | Some fragment \<Rightarrow>
             s1\<lparr>modelTranscriptionRef := modelTranscriptionRef s1 @ fragment\<rparr>)"

text \<open>
  The audio branch and its two alternatives. \<open>currentTime\<close> is the output clock read
  after decoding, \<open>audioBuffer\<close> the result of \<^verbatim>\<open>decodeAudioData\<close>. Reading the clock
  of a missing output context raises a TypeError.
\<close>

definition playOrStatus :: "ServerContent \<Rightarrow> real \<Rightarrow> AudioBuffer \<Rightarrow> App \<Rightarrow> error + App" where
  "playOrStatus content currentTime audioBuffer s =
     (if hasAudio (modelTurn content) then
        (if outputAudioContextRef s
         then Inr (processAudioPlayback (enqueue currentTime audioBuffer (s\<lparr>status := SPEAKING\<rparr>)))
         else Inl TypeError)
      else if modelTurn content = None then Inr (s\<lparr>status := THINKING\<rparr>)
      else Inr (s\<lparr>status := LISTENING\<rparr>))"

definition onmessage :: "LiveServerMessage \<Rightarrow> real \<Rightarrow> AudioBuffer \<Rightarrow> App \<Rightarrow> error + App" where
  "onmessage message currentTime audioBuffer s =
     (case message of
        None \<Rightarrow> Inr s
      | Some content \<Rightarrow>
          (let s1 = accumulate content s;
               s2 = (if interrupted content then stopAllPlayback s1 else s1)
           in case playOrStatus content currentTime audioBuffer s2 of
                Inl e \<Rightarrow> Inl e
              | Inr s3 \<Rightarrow> (if turnComplete content then commitTurn s3 else Inr s3)))"

definition onopen :: "App \<Rightarrow> App" where
  "onopen s = s\<lparr>isSessionActive := True, status := LISTENING\<rparr>"

definition onclose :: "App \<Rightarrow> App" where
  "onclose s =
     stopAllPlayback (s\<lparr>isSessionActive := False, status := IDLE, sessionPromiseRef := False\<rparr>)"

definition onerror :: "App \<Rightarrow> App" where
  "onerror s = stopAllPlayback (s\<lparr>isSessionActive := False, status := IDLE\<rparr>)"

section \<open>Session lifecycle\<close>

text \<open>
  The stop branch of \<^verbatim>\<open>handleToggleSession\<close> closes the session when the ref holds one;
  the SDK answers \<^verbatim>\<open>session.close()\<close> with the \<^verbatim>\<open>onclose\<close> callback, which is run
  here at once. The cleanup of the component's unmount effect is the same two lines. The
  first version of the component also downloads the transcript before it closes the
  session; the download changes nothing of the state modelled here.
\<close>

definition stopSession :: "App \<Rightarrow> App" where
  "stopSession s = (if sessionPromiseRef s then onclose s else s)"

text \<open>
  The start branch sets the status and clears the transcript, then tries to open the
  microphone, create the audio contexts and connect. What the \<^verbatim>\<open>try\<close> block reaches
  is a parameter: the microphone is refused (nothing is assigned), the connect call
  throws after the contexts were created, or the connection is under way and the ref
  holds its promise. The callbacks close over the transcript the component held when
  the button was pressed.
\<close>

datatype StartOutcome = MicrophoneRefused | ConnectThrew | Connected

definition startSession :: "StartOutcome \<Rightarrow> App \<Rightarrow> App" where
  "startSession outcome s =
     (let s1 = s\<lparr>status := CONNECTING, transcript := []\<rparr>
      in case outcome of
           MicrophoneRefused \<Rightarrow> s1\<lparr>status := IDLE\<rparr>
         | ConnectThrew \<Rightarrow> s1\<lparr>outputAudioContextRef := True, status := IDLE\<rparr>
         | Connected \<Rightarrow>
             s1\<lparr>outputAudioContextRef := True, sessionPromiseRef := True,
                closureTranscript := transcript s\<rparr>)"

definition handleToggleSession :: "StartOutcome \<Rightarrow> App \<Rightarrow> App" where
  "handleToggleSession outcome s =
     (if isSessionActive s then stopSession s else startSession outcome s)"

section \<open>Sending an image\<close>

text \<open>
  What the caller of a send operation sees: a notice (an alert) or nothing. \<open>SendFailed\<close>
  is the notice of the \<^verbatim>\<open>catch\<close> block around the transmission.
\<close>

datatype Notice = SelectAnImage | StartTheSessionFirst | ReadFailed | SendFailed

text \<open>
  \<^verbatim>\<open>imageDataUrl.split(',')[1]\<close>: the text between the first and the second comma,
  \<^verbatim>\<open>undefined\<close> when there is no comma.
\<close>

definition base64DataOf :: "string \<Rightarrow> string option" where
  "base64DataOf imageDataUrl =
     (if CHR '','' \<in> set imageDataUrl
      then Some (takeWhile (\<lambda>c. c \<noteq> CHR '','')
                  (drop 1 (dropWhile (\<lambda>c. c \<noteq> CHR '','') imageDataUrl)))
      else None)"

text \<open>
  \<^verbatim>\<open>handleSendDrawing\<close> (and, word for word, \<^verbatim>\<open>handleCropComplete\<close>). \<open>transmits\<close>
  says whether awaiting the session and \<^verbatim>\<open>sendRealtimeInput\<close> complete without
  throwing.
\<close>

definition handleSendDrawing :: "string \<Rightarrow> bool \<Rightarrow> App \<Rightarrow> Notice option \<times> App" where
  "handleSendDrawing imageDataUrl transmits s =
     (if \<not> sessionPromiseRef s then (Some StartTheSessionFirst, s)
      else
        (let s1 = s\<lparr>transcript := transcript s @
                     [\<lparr>speaker = USER, entry_text = [], entry_image = Some imageDataUrl\<rparr>]\<rparr>
         in case base64DataOf imageDataUrl of
              None \<Rightarrow> (Some SendFailed, s1)
            | Some base64Data \<Rightarrow>
                (if \<not> truthy base64Data then (Some SendFailed, s1)
                 else if transmits then (None, s1)
                 else (Some SendFailed, s1))))"

text \<open>
  \<^verbatim>\<open>handleFileSelect\<close> of the first version of the component, which sends the file
  itself. \<open>fileType\<close> is the file's MIME type, \<open>readResult\<close> the data URL the reader
  produced (nothing when reading failed).
\<close>

definition handleFileSelect :: "string \<Rightarrow> string option \<Rightarrow> bool \<Rightarrow> App \<Rightarrow> Notice option \<times> App" where
  "handleFileSelect fileType readResult transmits s =
     (if \<not> prefix ''image/'' fileType then (Some SelectAnImage, s)
      else if \<not> sessionPromiseRef s then (Some StartTheSessionFirst, s)
      else
        (case readResult of
           None \<Rightarrow> (Some ReadFailed, s)
         | Some imageDataUrl \<Rightarrow>
             (let s1 = s\<lparr>transcript := transcript s @
                          [\<lparr>speaker = USER, entry_text = [], entry_image = Some imageDataUrl\<rparr>]\<rparr>
              in if transmits then (None, s1) else (Some SendFailed, s1))))"

section \<open>Events\<close>

text \<open>
  The component as a machine: each event is one callback or handler, run to its end. An
  error ends the run.
\<close>

datatype event =
    Toggle StartOutcome
  | OnOpen
  | OnMessage LiveServerMessage real AudioBuffer
  | OnClose
  | OnError
  | SendDrawing string bool
  | FileSelect string "string option" bool
  | SourceEnded AudioBufferSourceNode

fun step :: "App \<Rightarrow> event \<Rightarrow> error + App" where
  "step s (Toggle outcome) = Inr (handleToggleSession outcome s)"
| "step s OnOpen = Inr (onopen s)"
| "step s (OnMessage message currentTime audioBuffer) = onmessage message currentTime audioBuffer s"
| "step s OnClose = Inr (onclose s)"
| "step s OnError = Inr (onerror s)"
| "step s (SendDrawing imageDataUrl transmits) = Inr (snd (handleSendDrawing imageDataUrl transmits s))"
| "step s (FileSelect fileType readResult transmits) =
     Inr (snd (handleFileSelect fileType readResult transmits s))"
| "step s (SourceEnded source) = Inr (s\<lparr>audioSourcesRef := remove1 source (audioSourcesRef s)\<rparr>)"

fun run :: "App \<Rightarrow> event list \<Rightarrow> error + App" where
  "run s [] = Inr s"
| "run s (e # events) = (case step s e of Inl err \<Rightarrow> Inl err | Inr s' \<Rightarrow> run s' events)"

section \<open>Notions used by the properties\<close>

text \<open>
  The source nodes that a run of arrivals creates when the next start time is \<open>cursor\<close>.
\<close>

fun scheduled :: "real \<Rightarrow> (real \<times> AudioBuffer) list \<Rightarrow> AudioBufferSourceNode list" where
  "scheduled cursor [] = []"
| "scheduled cursor (a # arrivals) =
     \<lparr>node_buffer = snd a, started_at = max cursor (fst a)\<rparr>
       # scheduled (max cursor (fst a) + duration (snd a)) arrivals"

text \<open>An event enqueues when it is a message whose model turn carries audio.\<close>

fun enqueues :: "event \<Rightarrow> bool" where
  "enqueues (OnMessage (Some content) currentTime audioBuffer) = hasAudio (modelTurn content)"
| "enqueues e = False"





text \<open>The state of a session that has just opened, for the examples.\<close>

definition openedSession :: App where
  "openedSession = onopen (startSession Connected initialState)"

text \<open>Two messages for the examples: a user fragment alone, and a turn-complete signal alone.\<close>

definition userFragment :: "string \<Rightarrow> event" where
  "userFragment str = OnMessage (Some \<lparr>inputTranscription = Some str, outputTranscription = None,
      modelTurn = None, turnComplete = False, interrupted = False\<rparr>) 0 \<lparr>duration = 0\<rparr>"

definition commitSignal :: event where
  "commitSignal = OnMessage (Some \<lparr>inputTranscription = None, outputTranscription = None,
      modelTurn = None, turnComplete = True, interrupted = False\<rparr>) 0 \<lparr>duration = 0\<rparr>"

section \<open>Playback scheduler: properties\<close>

lemma drain_append: "drain queue sources =
    sources @ map (\<lambda>q. \<lparr>node_buffer = buffer q, started_at = startTime q\<rparr>) queue"
  by (induction queue arbitrary: sources) simp_all

lemma play_one:
  assumes "outputAudioContextRef s" and "audioPlaybackQueueRef s = []"
  shows "processAudioPlayback (enqueue now b s) =
           s\<lparr>audioSourcesRef := audioSourcesRef s @
                 [\<lparr>node_buffer = b, started_at = max (nextStartTimeRef s) now\<rparr>],
             audioPlaybackQueueRef := [],
             nextStartTimeRef := max (nextStartTimeRef s) now + duration b\<rparr>"
  using assms by (simp add: processAudioPlayback_def enqueue_def Let_def drain_append)

lemma play_one_facts:
  assumes "outputAudioContextRef s" and "audioPlaybackQueueRef s = []"
  shows "outputAudioContextRef (processAudioPlayback (enqueue now b s))"
    and "audioPlaybackQueueRef (processAudioPlayback (enqueue now b s)) = []"
    and "nextStartTimeRef (processAudioPlayback (enqueue now b s)) =
           max (nextStartTimeRef s) now + duration b"
    and "audioSourcesRef (processAudioPlayback (enqueue now b s)) =
           audioSourcesRef s @ [\<lparr>node_buffer = b, started_at = max (nextStartTimeRef s) now\<rparr>]"
  using assms by (simp_all add: play_one)

lemma enqueueAll_scheduled:
  assumes "outputAudioContextRef s" and "audioPlaybackQueueRef s = []"
  shows "audioSourcesRef (enqueueAll arrivals s) =
           audioSourcesRef s @ scheduled (nextStartTimeRef s) arrivals"
  using assms
proof (induction arrivals arbitrary: s)
  case Nil
  then show ?case by simp
next
  case (Cons a arrivals)
  let ?s' = "processAudioPlayback (enqueue (fst a) (snd a) s)"
  have "audioSourcesRef (enqueueAll arrivals ?s') =
          audioSourcesRef ?s' @ scheduled (nextStartTimeRef ?s') arrivals"
    using Cons.prems by (intro Cons.IH) (simp_all add: play_one_facts)
  then show ?case using Cons.prems by (simp add: play_one_facts)
qed

lemma scheduled_lower:
  assumes "\<forall>a \<in> set arrivals. 0 \<le> duration (snd a)"
    and "x \<in> set (scheduled cursor arrivals)"
  shows "cursor \<le> started_at x"
  using assms
proof (induction arrivals arbitrary: cursor)
  case Nil
  then show ?case by simp
next
  case (Cons a arrivals)
  show ?case
  proof (cases "x = \<lparr>node_buffer = snd a, started_at = max cursor (fst a)\<rparr>")
    case True
    then show ?thesis by simp
  next
    case False
    with Cons.prems have "x \<in> set (scheduled (max cursor (fst a) + duration (snd a)) arrivals)"
      by simp
    with Cons.IH Cons.prems have "max cursor (fst a) + duration (snd a) \<le> started_at x"
      by simp
    moreover have "0 \<le> duration (snd a)" using Cons.prems by simp
    ultimately show ?thesis by linarith
  qed
qed

lemma scheduled_sorted:
  assumes "\<forall>a \<in> set arrivals. 0 \<le> duration (snd a)"
  shows "sorted (map started_at (scheduled cursor arrivals))"
  using assms
proof (induction arrivals arbitrary: cursor)
  case Nil
  then show ?case by simp
next
  case (Cons a arrivals)
  have d: "0 \<le> duration (snd a)" using Cons.prems by simp
  have "\<forall>x \<in> set (scheduled (max cursor (fst a) + duration (snd a)) arrivals).
          max cursor (fst a) \<le> started_at x"
  proof
    fix x assume "x \<in> set (scheduled (max cursor (fst a) + duration (snd a)) arrivals)"
    with Cons.prems have "max cursor (fst a) + duration (snd a) \<le> started_at x"
      by (intro scheduled_lower [of arrivals]) simp_all
    with d show "max cursor (fst a) \<le> started_at x" by linarith
  qed
  moreover have "sorted (map started_at (scheduled (max cursor (fst a) + duration (snd a)) arrivals))"
    using Cons.prems by (intro Cons.IH) simp
  ultimately show ?case by simp
qed

lemma scheduled_not_before_now:
  "list_all2 (\<lambda>a source. fst a \<le> started_at source \<and> node_buffer source = snd a)
     arrivals (scheduled cursor arrivals)"
  by (induction arrivals arbitrary: cursor) simp_all

text \<open>
  Claim C3. Take any run of enqueue operations, each with its own reading of the output
  clock and a buffer of non-negative duration (the duration of an audio buffer is its
  length over its sample rate), from a state with an output context and an empty queue
  (every state the component reaches has an empty queue, see \<open>run_queue_empty\<close>). The
  sources the run adds to the live set are, in arrival order, one per fragment; their
  start times, as given to \<^verbatim>\<open>source.start\<close>, are non-decreasing, and each fragment
  starts no earlier than the clock reading of its own enqueue.
\<close>

theorem startTimes_nondecreasing:
  assumes "outputAudioContextRef s" and "audioPlaybackQueueRef s = []"
    and "\<forall>a \<in> set arrivals. 0 \<le> duration (snd a)"
  shows "sorted (map started_at
           (drop (length (audioSourcesRef s)) (audioSourcesRef (enqueueAll arrivals s))))
       \<and> list_all2 (\<lambda>a source. fst a \<le> started_at source \<and> node_buffer source = snd a)
           arrivals (drop (length (audioSourcesRef s)) (audioSourcesRef (enqueueAll arrivals s)))"
  using assms
  by (simp add: enqueueAll_scheduled scheduled_sorted scheduled_not_before_now)

theorem startTimes_nondecreasing_witness:
  "sorted (map started_at (audioSourcesRef (enqueueAll
      [(0, \<lparr>duration = 2\<rparr>), (1, \<lparr>duration = 1/2\<rparr>), (7, \<lparr>duration = 1\<rparr>)] openedSession)))
   \<and> list_all2 (\<lambda>a source. fst a \<le> started_at source \<and> node_buffer source = snd a)
      [(0, \<lparr>duration = 2\<rparr>), (1, \<lparr>duration = 1/2\<rparr>), (7, \<lparr>duration = 1\<rparr>)]
      (audioSourcesRef (enqueueAll
         [(0, \<lparr>duration = 2\<rparr>), (1, \<lparr>duration = 1/2\<rparr>), (7, \<lparr>duration = 1\<rparr>)] openedSession))
   \<and> map started_at (audioSourcesRef (enqueueAll
      [(0, \<lparr>duration = 2\<rparr>), (1, \<lparr>duration = 1/2\<rparr>), (7, \<lparr>duration = 1\<rparr>)] openedSession))
     = [0, 2, 7]"
  using startTimes_nondecreasing [of openedSession
      "[(0, \<lparr>duration = 2\<rparr>), (1, \<lparr>duration = 1/2\<rparr>), (7, \<lparr>duration = 1\<rparr>)]"]
  by (simp add: openedSession_def onopen_def startSession_def initialState_def
        processAudioPlayback_def enqueue_def)

text \<open>
  Claim C9. From a state with an output context, an empty queue and the next start time
  at 0, three buffers of 1 s, 1 s and 0.5 s enqueued with the clock at 0 are started at
  0, 1 and 2, and the next start time ends at 2.5.
\<close>

theorem scenario_three_buffers:
  assumes "outputAudioContextRef s" and "audioPlaybackQueueRef s = []"
    and "nextStartTimeRef s = 0"
  shows "map started_at (drop (length (audioSourcesRef s)) (audioSourcesRef (enqueueAll
            [(0, \<lparr>duration = 1\<rparr>), (0, \<lparr>duration = 1\<rparr>), (0, \<lparr>duration = 1/2\<rparr>)] s))) = [0, 1, 2]
       \<and> nextStartTimeRef (enqueueAll
            [(0, \<lparr>duration = 1\<rparr>), (0, \<lparr>duration = 1\<rparr>), (0, \<lparr>duration = 1/2\<rparr>)] s) = 5/2"
  using assms by (simp add: play_one_facts)

theorem scenario_three_buffers_witness:
  "map started_at (audioSourcesRef (enqueueAll
      [(0, \<lparr>duration = 1\<rparr>), (0, \<lparr>duration = 1\<rparr>), (0, \<lparr>duration = 1/2\<rparr>)] openedSession))
     = [0, 1, 2]
   \<and> nextStartTimeRef (enqueueAll
      [(0, \<lparr>duration = 1\<rparr>), (0, \<lparr>duration = 1\<rparr>), (0, \<lparr>duration = 1/2\<rparr>)] openedSession)
     = 5/2"
  using scenario_three_buffers [of openedSession]
  by (simp add: openedSession_def onopen_def startSession_def initialState_def)

section \<open>Interruption: properties\<close>

lemmas model_defs =
  handleToggleSession_def startSession_def stopSession_def onopen_def onclose_def onerror_def
  onmessage_def accumulate_def playOrStatus_def hasAudio_def commitTurn_def mergeTest_def
  mergeUpdater_def newEntriesOf_def lastEntryOf_def truthy_def trim_def isWhiteSpace_def
  stopAllPlayback_def processAudioPlayback_def enqueue_def handleSendDrawing_def
  handleFileSelect_def base64DataOf_def initialState_def openedSession_def Let_def

lemma commitTurn_cursor: "commitTurn s = Inr s' \<Longrightarrow> nextStartTimeRef s' = nextStartTimeRef s"
  by (auto simp: commitTurn_def Let_def split: sum.splits if_splits)

lemma accumulate_cursor: "nextStartTimeRef (accumulate c s) = nextStartTimeRef s"
  by (simp add: accumulate_def Let_def split: option.splits)

lemma onmessage_cursor:
  assumes "onmessage m now b s = Inr s'" and "\<not> enqueues (OnMessage m now b)" and "nextStartTimeRef s = 0"
  shows "nextStartTimeRef s' = 0"
proof (cases m)
  case None
  with assms show ?thesis by (simp add: onmessage_def)
next
  case (Some c)
  with assms(2) have na: "\<not> hasAudio (modelTurn c)" by simp
  define s2 where "s2 = (if interrupted c then stopAllPlayback (accumulate c s) else accumulate c s)"
  have z: "nextStartTimeRef s2 = 0"
    using assms(3) by (simp add: s2_def stopAllPlayback_def accumulate_cursor)
  obtain s3 where s3: "playOrStatus c now b s2 = Inr s3" and c3: "nextStartTimeRef s3 = 0"
    using na z by (cases "modelTurn c = None") (simp_all add: playOrStatus_def)
  from assms(1) Some s3 have "(if turnComplete c then commitTurn s3 else Inr s3) = Inr s'"
    by (simp add: onmessage_def Let_def s2_def)
  with c3 show ?thesis by (auto split: if_splits dest: commitTurn_cursor)
qed

lemma handleToggleSession_cursor:
  "nextStartTimeRef s = 0 \<Longrightarrow> nextStartTimeRef (handleToggleSession outcome s) = 0"
  by (cases outcome)
     (simp_all add: handleToggleSession_def stopSession_def startSession_def onclose_def
        stopAllPlayback_def)

lemma handleSendDrawing_cursor:
  "nextStartTimeRef (snd (handleSendDrawing url ok s)) = nextStartTimeRef s"
  by (simp add: handleSendDrawing_def Let_def split: option.splits)

lemma handleFileSelect_cursor:
  "nextStartTimeRef (snd (handleFileSelect ty res ok s)) = nextStartTimeRef s"
  by (simp add: handleFileSelect_def Let_def split: option.splits)

lemma step_cursor:
  assumes "step s e = Inr s'" and "\<not> enqueues e" and "nextStartTimeRef s = 0"
  shows "nextStartTimeRef s' = 0"
proof (cases e)
  case (Toggle outcome)
  with assms show ?thesis by (auto simp: handleToggleSession_cursor)
next
  case OnOpen
  with assms show ?thesis by (auto simp: onopen_def)
next
  case (OnMessage m now b)
  with assms show ?thesis using onmessage_cursor [of m now b s s'] by simp
next
  case OnClose
  with assms show ?thesis by (auto simp: onclose_def stopAllPlayback_def)
next
  case OnError
  with assms show ?thesis by (auto simp: onerror_def stopAllPlayback_def)
next
  case (SendDrawing url ok)
  with assms show ?thesis by (auto simp: handleSendDrawing_cursor)
next
  case (FileSelect ty res ok)
  with assms show ?thesis by (auto simp: handleFileSelect_cursor)
next
  case (SourceEnded src)
  with assms show ?thesis by auto
qed

lemma run_Cons_Inr:
  "run s (e # events) = Inr s' \<Longrightarrow> \<exists>s1. step s e = Inr s1 \<and> run s1 events = Inr s'"
  by (cases "step s e") simp_all

lemma run_cursor:
  assumes "run s events = Inr s'" and "\<forall>e \<in> set events. \<not> enqueues e" and "nextStartTimeRef s = 0"
  shows "nextStartTimeRef s' = 0"
  using assms
proof (induction events arbitrary: s)
  case Nil
  then show ?case by simp
next
  case (Cons e events)
  from Cons.prems(1) obtain s1 where s1: "step s e = Inr s1" and r: "run s1 events = Inr s'"
    using run_Cons_Inr by blast
  have "\<not> enqueues e" using Cons.prems(2) by simp
  have "nextStartTimeRef s1 = 0"
    by (rule step_cursor [OF s1 \<open>\<not> enqueues e\<close> Cons.prems(3)])
  moreover have "\<forall>e \<in> set events. \<not> enqueues e" using Cons.prems(2) by simp
  ultimately show ?case using r by (simp add: Cons.IH [of s1])
qed

text \<open>
  Claim C4. \<^verbatim>\<open>stopAllPlayback\<close> calls \<^verbatim>\<open>stop()\<close> on every live source, leaves no live
  source, empties the queue and sets the next start time to 0. After it, and after any
  further events none of which enqueues, an enqueue at clock reading \<open>now\<close> (the output
  clock is never negative) pushes its buffer with start time \<open>now\<close>.
\<close>

theorem interrupt_reanchors:
  "audioSourcesRef (stopAllPlayback s) = []
   \<and> set (audioSourcesRef s) \<subseteq> set (stoppedSources (stopAllPlayback s))
   \<and> audioPlaybackQueueRef (stopAllPlayback s) = []
   \<and> nextStartTimeRef (stopAllPlayback s) = 0
   \<and> (run (stopAllPlayback s) events = Inr s' \<and> (\<forall>e \<in> set events. \<not> enqueues e) \<and> 0 \<le> now
        \<longrightarrow> last (audioPlaybackQueueRef (enqueue now b s')) = \<lparr>buffer = b, startTime = now\<rparr>)"
proof -
  have "nextStartTimeRef s' = 0"
    if "run (stopAllPlayback s) events = Inr s'" and "\<forall>e \<in> set events. \<not> enqueues e"
    using that by (simp add: run_cursor [of "stopAllPlayback s" events s'] stopAllPlayback_def)
  then show ?thesis by (auto simp: stopAllPlayback_def enqueue_def Let_def)
qed

theorem interrupt_reanchors_witness:
  "nextStartTimeRef (enqueueAll [(0, \<lparr>duration = 10\<rparr>)] openedSession) = 10
   \<and> audioSourcesRef (enqueueAll [(0, \<lparr>duration = 10\<rparr>)] openedSession)
       = [\<lparr>node_buffer = \<lparr>duration = 10\<rparr>, started_at = 0\<rparr>]
   \<and> stoppedSources (stopAllPlayback (enqueueAll [(0, \<lparr>duration = 10\<rparr>)] openedSession))
       = [\<lparr>node_buffer = \<lparr>duration = 10\<rparr>, started_at = 0\<rparr>]
   \<and> last (audioPlaybackQueueRef (enqueue 3 \<lparr>duration = 1\<rparr>
        (onopen (stopAllPlayback (enqueueAll [(0, \<lparr>duration = 10\<rparr>)] openedSession)))))
       = \<lparr>buffer = \<lparr>duration = 1\<rparr>, startTime = 3\<rparr>"
  using interrupt_reanchors [of "enqueueAll [(0, \<lparr>duration = 10\<rparr>)] openedSession" "[OnOpen]"
      "onopen (stopAllPlayback (enqueueAll [(0, \<lparr>duration = 10\<rparr>)] openedSession))"
      3 "\<lparr>duration = 1\<rparr>"]
  by (simp add: model_defs)

section \<open>Session lifecycle: properties\<close>




lemma mergeUpdater_length: "mergeUpdater u prev = Inr updated \<Longrightarrow> length updated = length prev"
  by (auto simp: mergeUpdater_def split: if_splits)

lemma commitTurn_length:
  assumes "commitTurn s = Inr s'"
  shows "length (transcript s) \<le> length (transcript s')"
proof (cases "mergeTest (lastEntryOf (closureTranscript s)) (trim (userTranscriptionRef s))")
  case True
  with assms obtain updated where u: "mergeUpdater (trim (userTranscriptionRef s)) (transcript s) = Inr updated"
    and s': "transcript s' = updated @ newEntriesOf True (trim (userTranscriptionRef s)) (trim (modelTranscriptionRef s))"
    by (auto simp: commitTurn_def Let_def split: sum.splits)
  then show ?thesis by (simp add: mergeUpdater_length)
next
  case False
  with assms show ?thesis by (auto simp: commitTurn_def Let_def)
qed

lemma accumulate_transcript: "transcript (accumulate c s) = transcript s"
  by (simp add: accumulate_def Let_def split: option.splits)

lemma playOrStatus_transcript: "playOrStatus c now b s = Inr s' \<Longrightarrow> transcript s' = transcript s"
  by (auto simp: playOrStatus_def processAudioPlayback_def enqueue_def Let_def split: if_splits)

lemma onmessage_length:
  assumes "onmessage m now b s = Inr s'"
  shows "length (transcript s) \<le> length (transcript s')"
proof (cases m)
  case None
  with assms show ?thesis by (simp add: onmessage_def)
next
  case (Some c)
  define s2 where "s2 = (if interrupted c then stopAllPlayback (accumulate c s) else accumulate c s)"
  have t2: "transcript s2 = transcript s"
    by (simp add: s2_def stopAllPlayback_def accumulate_transcript)
  from assms Some obtain s3 where s3: "playOrStatus c now b s2 = Inr s3"
    and fin: "(if turnComplete c then commitTurn s3 else Inr s3) = Inr s'"
    by (cases "playOrStatus c now b s2") (simp_all add: onmessage_def Let_def s2_def)
  have "transcript s3 = transcript s" using playOrStatus_transcript [OF s3] t2 by simp
  moreover have "length (transcript s3) \<le> length (transcript s')"
    using fin commitTurn_length [of s3 s'] by (cases "turnComplete c") simp_all
  ultimately show ?thesis by simp
qed

lemma step_length:
  assumes "step s e = Inr s'" and "length (transcript s') < length (transcript s)"
  shows "(\<exists>outcome. e = Toggle outcome) \<and> \<not> isSessionActive s"
proof (cases e)
  case (Toggle outcome)
  have "transcript (stopSession s) = transcript s"
    by (simp add: stopSession_def onclose_def stopAllPlayback_def)
  with Toggle assms show ?thesis
    by (cases "isSessionActive s") (auto simp: handleToggleSession_def)
next
  case OnOpen
  with assms show ?thesis by (auto simp: onopen_def)
next
  case (OnMessage m now b)
  with assms show ?thesis using onmessage_length [of m now b s s'] by simp
next
  case OnClose
  with assms show ?thesis by (auto simp: onclose_def stopAllPlayback_def)
next
  case OnError
  with assms show ?thesis by (auto simp: onerror_def stopAllPlayback_def)
next
  case (SendDrawing url ok)
  with assms show ?thesis by (auto simp: handleSendDrawing_def Let_def split: option.splits if_splits)
next
  case (FileSelect ty res ok)
  with assms show ?thesis by (auto simp: handleFileSelect_def Let_def split: option.splits if_splits)
next
  case (SourceEnded src)
  with assms show ?thesis by auto
qed

text \<open>
  Claim C10. A stop, a close and an error leave the transcript as it was. The start
  branch empties it, whatever the attempt to connect reaches, and it is still empty when
  \<^verbatim>\<open>onopen\<close> has run. No other event makes the transcript shorter: an event after
  which the transcript has fewer entries is a toggle of a session that is not active.
\<close>

theorem transcript_cleared_only_at_start:
  "transcript (stopSession s) = transcript s
   \<and> transcript (onclose s) = transcript s
   \<and> transcript (onerror s) = transcript s
   \<and> transcript (startSession outcome s) = []
   \<and> transcript (onopen (startSession outcome s)) = []
   \<and> (isSessionActive s \<longrightarrow> transcript (handleToggleSession outcome s) = transcript s)
   \<and> (\<not> isSessionActive s \<longrightarrow> transcript (handleToggleSession outcome s) = [])
   \<and> (step s e = Inr s' \<and> length (transcript s') < length (transcript s)
        \<longrightarrow> (\<exists>outcome. e = Toggle outcome) \<and> \<not> isSessionActive s)"
proof -
  have a: "transcript (stopSession s) = transcript s"
    by (simp add: stopSession_def onclose_def stopAllPlayback_def)
  have b: "transcript (onclose s) = transcript s" "transcript (onerror s) = transcript s"
    by (simp_all add: onclose_def onerror_def stopAllPlayback_def)
  have c: "transcript (startSession outcome s) = []"
    by (cases outcome) (simp_all add: startSession_def)
  then have d: "transcript (onopen (startSession outcome s)) = []"
    by (simp add: onopen_def)
  show ?thesis using a b c d step_length [of s e s']
    by (simp add: handleToggleSession_def)
qed

theorem transcript_cleared_only_at_start_witness:
  "transcript (snd (handleSendDrawing ''data:image/png;base64,iVBOR'' True openedSession))
     = [\<lparr>speaker = USER, entry_text = [], entry_image = Some ''data:image/png;base64,iVBOR''\<rparr>]
   \<and> transcript (stopSession (snd (handleSendDrawing ''data:image/png;base64,iVBOR'' True openedSession)))
     = [\<lparr>speaker = USER, entry_text = [], entry_image = Some ''data:image/png;base64,iVBOR''\<rparr>]
   \<and> \<not> isSessionActive (stopSession (snd (handleSendDrawing ''data:image/png;base64,iVBOR'' True openedSession)))
   \<and> transcript (handleToggleSession Connected
        (stopSession (snd (handleSendDrawing ''data:image/png;base64,iVBOR'' True openedSession))))
     = []"
  using transcript_cleared_only_at_start
      [of "snd (handleSendDrawing ''data:image/png;base64,iVBOR'' True openedSession)" Connected
          "Toggle Connected"
          "handleToggleSession Connected
             (snd (handleSendDrawing ''data:image/png;base64,iVBOR'' True openedSession))"]
    transcript_cleared_only_at_start
      [of "stopSession (snd (handleSendDrawing ''data:image/png;base64,iVBOR'' True openedSession))"
          Connected "Toggle Connected"
          "handleToggleSession Connected
             (stopSession (snd (handleSendDrawing ''data:image/png;base64,iVBOR'' True openedSession)))"]
  by (simp add: model_defs)

section \<open>Sending an image: properties\<close>

text \<open>
  Claim C8. With no session in the ref, sending an image gives a notice and changes
  nothing. With a session, the state after the send is the state before it with one
  image-only USER entry (empty text, the image set) appended to the transcript, whether
  or not the transmission succeeds; a failed transmission gives the notice \<open>SendFailed\<close>,
  and the session ref, the activity flag and the status are as before. This holds for a
  drawing (and a cropped image) and for a selected image file that was read.
\<close>

theorem sendImage_contract:
  "(\<not> sessionPromiseRef s \<longrightarrow>
      handleSendDrawing imageDataUrl transmits s = (Some StartTheSessionFirst, s)
      \<and> snd (handleFileSelect fileType readResult transmits s) = s
      \<and> fst (handleFileSelect fileType readResult transmits s) \<noteq> None)
   \<and> (sessionPromiseRef s \<longrightarrow>
      snd (handleSendDrawing imageDataUrl transmits s)
        = s\<lparr>transcript := transcript s @
               [\<lparr>speaker = USER, entry_text = [], entry_image = Some imageDataUrl\<rparr>]\<rparr>
      \<and> fst (handleSendDrawing imageDataUrl False s) = Some SendFailed
      \<and> (prefix ''image/'' fileType \<longrightarrow>
           snd (handleFileSelect fileType (Some imageDataUrl) transmits s)
             = s\<lparr>transcript := transcript s @
                    [\<lparr>speaker = USER, entry_text = [], entry_image = Some imageDataUrl\<rparr>]\<rparr>
           \<and> fst (handleFileSelect fileType (Some imageDataUrl) False s) = Some SendFailed))"
  by (simp add: handleSendDrawing_def handleFileSelect_def Let_def split: option.splits)

theorem sendImage_contract_witness:
  "handleSendDrawing ''data:image/png;base64,iVBOR'' True initialState
     = (Some StartTheSessionFirst, initialState)
   \<and> sessionPromiseRef openedSession
   \<and> handleSendDrawing ''data:image/png;base64,iVBOR'' True openedSession
     = (None, openedSession\<lparr>transcript :=
          [\<lparr>speaker = USER, entry_text = [], entry_image = Some ''data:image/png;base64,iVBOR''\<rparr>]\<rparr>)
   \<and> handleSendDrawing ''data:image/png;base64,iVBOR'' False openedSession
     = (Some SendFailed, openedSession\<lparr>transcript :=
          [\<lparr>speaker = USER, entry_text = [], entry_image = Some ''data:image/png;base64,iVBOR''\<rparr>]\<rparr>)
   \<and> handleFileSelect ''image/png'' (Some ''data:image/png;base64,iVBOR'') False openedSession
     = (Some SendFailed, openedSession\<lparr>transcript :=
          [\<lparr>speaker = USER, entry_text = [], entry_image = Some ''data:image/png;base64,iVBOR''\<rparr>]\<rparr>)"
  using sendImage_contract [of initialState "''data:image/png;base64,iVBOR''" True "''image/png''"
          "Some ''data:image/png;base64,iVBOR''"]
    sendImage_contract [of openedSession "''data:image/png;base64,iVBOR''" True "''image/png''"
          "Some ''data:image/png;base64,iVBOR''"]
  by (simp add: model_defs)

section \<open>Accumulators: properties\<close>








lemma commitTurn_status: "commitTurn s = Inr s' \<Longrightarrow> status s' = LISTENING"
  by (auto simp: commitTurn_def Let_def split: sum.splits if_splits)

lemma onmessage_Some_cases:
  assumes "onmessage (Some c) now b s = Inr s'"
  obtains s3 where
    "playOrStatus c now b (if interrupted c then stopAllPlayback (accumulate c s) else accumulate c s) = Inr s3"
    and "(if turnComplete c then commitTurn s3 else Inr s3) = Inr s'"
  using assms
  by (cases "playOrStatus c now b (if interrupted c then stopAllPlayback (accumulate c s) else accumulate c s)")
     (simp_all add: onmessage_def Let_def)







section \<open>Status: properties\<close>

lemma playOrStatus_status:
  "playOrStatus c now b s = Inr s' \<Longrightarrow>
     status s' = (if hasAudio (modelTurn c) then SPEAKING
                  else if modelTurn c = None then THINKING else LISTENING)"
  by (auto simp: playOrStatus_def processAudioPlayback_def enqueue_def Let_def split: if_splits)

lemma playOrStatus_succeeds:
  "\<not> hasAudio (modelTurn c) \<or> outputAudioContextRef s \<Longrightarrow> \<exists>s'. playOrStatus c now b s = Inr s'"
  by (auto simp: playOrStatus_def)

lemma playOrStatus_stopped:
  "playOrStatus c now b s = Inr s' \<Longrightarrow> stoppedSources s' = stoppedSources s"
  by (auto simp: playOrStatus_def processAudioPlayback_def enqueue_def Let_def split: if_splits)

lemma commitTurn_stopped: "commitTurn s = Inr s' \<Longrightarrow> stoppedSources s' = stoppedSources s"
  by (auto simp: commitTurn_def Let_def split: sum.splits if_splits)

lemma accumulate_frame:
  "outputAudioContextRef (accumulate c s) = outputAudioContextRef s"
  "audioSourcesRef (accumulate c s) = audioSourcesRef s"
  "stoppedSources (accumulate c s) = stoppedSources s"
  by (simp_all add: accumulate_def Let_def split: option.splits)

lemma onmessage_status_no_commit:
  assumes "\<not> turnComplete c" and "hasAudio (modelTurn c) \<longrightarrow> outputAudioContextRef s"
  shows "\<exists>s'. onmessage (Some c) now b s = Inr s'
           \<and> status s' = (if hasAudio (modelTurn c) then SPEAKING
                           else if modelTurn c = None then THINKING else LISTENING)"
proof -
  let ?s2 = "if interrupted c then stopAllPlayback (accumulate c s) else accumulate c s"
  have "outputAudioContextRef ?s2 = outputAudioContextRef s"
    by (simp add: stopAllPlayback_def accumulate_frame)
  with assms(2) obtain s3 where s3: "playOrStatus c now b ?s2 = Inr s3"
    using playOrStatus_succeeds [of c ?s2 now b] by auto
  with assms(1) have "onmessage (Some c) now b s = Inr s3"
    by (simp add: onmessage_def Let_def)
  with playOrStatus_status [OF s3] show ?thesis by simp
qed

lemma onmessage_status_commit:
  assumes "turnComplete c" and "onmessage (Some c) now b s = Inr s'"
  shows "status s' = LISTENING"
proof -
  from assms(2) obtain s3 where "(if turnComplete c then commitTurn s3 else Inr s3) = Inr s'"
    by (auto elim: onmessage_Some_cases)
  with assms(1) show ?thesis by (simp add: commitTurn_status)
qed

lemma onmessage_interrupted:
  assumes "interrupted c" and "onmessage (Some c) now b s = Inr s'"
  shows "set (audioSourcesRef s) \<subseteq> set (stoppedSources s')"
proof -
  from assms obtain s3 where s3: "playOrStatus c now b (stopAllPlayback (accumulate c s)) = Inr s3"
    and fin: "(if turnComplete c then commitTurn s3 else Inr s3) = Inr s'"
    by (auto elim: onmessage_Some_cases)
  have "stoppedSources s3 = stoppedSources s @ audioSourcesRef s"
    using playOrStatus_stopped [OF s3] by (simp add: stopAllPlayback_def accumulate_frame)
  moreover have "stoppedSources s' = stoppedSources s3"
    using fin commitTurn_stopped [of s3 s'] by (cases "turnComplete c") simp_all
  ultimately show ?thesis by simp
qed

text \<open>
  Claim C5, as the code has it. A message without server content changes nothing. For a
  message with server content and no turn-complete flag, the status after the message is
  SPEAKING when the first part of the model turn carries audio data (and there is an
  output context), THINKING when there is no model turn, LISTENING otherwise. A message
  with the turn-complete flag that is handled to its end leaves the status LISTENING.
  An interruption flag makes the handler stop every source that was live, before the
  branch above is taken; it sets no status of its own.
\<close>

theorem status_after_message:
  "onmessage None now b s = Inr s
   \<and> (\<not> turnComplete c \<and> hasAudio (modelTurn c) \<and> outputAudioContextRef s \<longrightarrow>
        (\<exists>s'. onmessage (Some c) now b s = Inr s' \<and> status s' = SPEAKING))
   \<and> (\<not> turnComplete c \<and> \<not> hasAudio (modelTurn c) \<and> modelTurn c = None \<longrightarrow>
        (\<exists>s'. onmessage (Some c) now b s = Inr s' \<and> status s' = THINKING))
   \<and> (\<not> turnComplete c \<and> \<not> hasAudio (modelTurn c) \<and> modelTurn c \<noteq> None \<longrightarrow>
        (\<exists>s'. onmessage (Some c) now b s = Inr s' \<and> status s' = LISTENING))
   \<and> (turnComplete c \<and> onmessage (Some c) now b s = Inr s' \<longrightarrow> status s' = LISTENING)
   \<and> (interrupted c \<and> onmessage (Some c) now b s = Inr s' \<longrightarrow>
        set (audioSourcesRef s) \<subseteq> set (stoppedSources s'))"
proof -
  have a: "onmessage None now b s = Inr s" by (simp add: onmessage_def)
  show ?thesis
    using a onmessage_status_no_commit [of c s now b] onmessage_status_commit [of c now b s s']
      onmessage_interrupted [of c now b s s']
    by auto
qed

theorem status_after_message_witness:
  "map_sum id status (onmessage (Some \<lparr>inputTranscription = None, outputTranscription = None,
        modelTurn = Some [Some ''UklGRg==''], turnComplete = False, interrupted = False\<rparr>)
        0 \<lparr>duration = 1\<rparr> openedSession) = Inr SPEAKING
   \<and> map_sum id status (onmessage (Some \<lparr>inputTranscription = Some ''hi'', outputTranscription = None,
        modelTurn = None, turnComplete = False, interrupted = False\<rparr>)
        0 \<lparr>duration = 1\<rparr> openedSession) = Inr THINKING
   \<and> map_sum id status (onmessage (Some \<lparr>inputTranscription = None, outputTranscription = None,
        modelTurn = Some [None], turnComplete = False, interrupted = False\<rparr>)
        0 \<lparr>duration = 1\<rparr> openedSession) = Inr LISTENING
   \<and> map_sum id status (onmessage (Some \<lparr>inputTranscription = None, outputTranscription = None,
        modelTurn = Some [Some ''UklGRg==''], turnComplete = True, interrupted = True\<rparr>)
        0 \<lparr>duration = 1\<rparr> openedSession) = Inr LISTENING"
  using
    status_after_message [of 0 "\<lparr>duration = 1\<rparr>" openedSession
      "\<lparr>inputTranscription = None, outputTranscription = None,
        modelTurn = Some [Some ''UklGRg==''], turnComplete = False, interrupted = False\<rparr>"]
    status_after_message [of 0 "\<lparr>duration = 1\<rparr>" openedSession
      "\<lparr>inputTranscription = Some ''hi'', outputTranscription = None,
        modelTurn = None, turnComplete = False, interrupted = False\<rparr>"]
    status_after_message [of 0 "\<lparr>duration = 1\<rparr>" openedSession
      "\<lparr>inputTranscription = None, outputTranscription = None,
        modelTurn = Some [None], turnComplete = False, interrupted = False\<rparr>"]
    status_after_message [of 0 "\<lparr>duration = 1\<rparr>" openedSession
      "\<lparr>inputTranscription = None, outputTranscription = None,
        modelTurn = Some [Some ''UklGRg==''], turnComplete = True, interrupted = True\<rparr>"]
  by (simp add: model_defs)

text \<open>
  Claim C5 as stated fails. A message that carries only the interruption flag, received
  by a session that is listening, leaves the status THINKING, not LISTENING. And a
  message without server content, which carries no model turn, leaves a listening
  session LISTENING, not THINKING.
\<close>

theorem interruption_leaves_thinking:
  "map_sum id status (run initialState
        [Toggle Connected, OnOpen,
         OnMessage (Some \<lparr>inputTranscription = None, outputTranscription = None,
            modelTurn = None, turnComplete = False, interrupted = True\<rparr>) 0 \<lparr>duration = 0\<rparr>])
     = Inr THINKING
   \<and> map_sum id status (run initialState
        [Toggle Connected, OnOpen, OnMessage None 0 \<lparr>duration = 0\<rparr>])
     = Inr LISTENING"
  by (simp add: model_defs)

section \<open>Playback queue: an invariant\<close>

text \<open>
  The queue is empty after every event: an enqueue happens only with an output context,
  and \<^verbatim>\<open>processAudioPlayback\<close>, which follows it at once, then drains the queue.
\<close>

lemma commitTurn_queue: "commitTurn s = Inr s' \<Longrightarrow> audioPlaybackQueueRef s' = audioPlaybackQueueRef s"
  by (auto simp: commitTurn_def Let_def split: sum.splits if_splits)

lemma playOrStatus_queue:
  "playOrStatus c now b s = Inr s' \<Longrightarrow> audioPlaybackQueueRef s = [] \<Longrightarrow> audioPlaybackQueueRef s' = []"
  by (auto simp: playOrStatus_def processAudioPlayback_def enqueue_def Let_def split: if_splits)

lemma accumulate_queue: "audioPlaybackQueueRef (accumulate c s) = audioPlaybackQueueRef s"
  by (simp add: accumulate_def Let_def split: option.splits)

lemma onmessage_queue:
  assumes "onmessage m now b s = Inr s'" and "audioPlaybackQueueRef s = []"
  shows "audioPlaybackQueueRef s' = []"
proof (cases m)
  case None
  with assms show ?thesis by (simp add: onmessage_def)
next
  case (Some c)
  let ?s2 = "if interrupted c then stopAllPlayback (accumulate c s) else accumulate c s"
  from assms(1) Some obtain s3 where s3: "playOrStatus c now b ?s2 = Inr s3"
    and fin: "(if turnComplete c then commitTurn s3 else Inr s3) = Inr s'"
    by (auto elim: onmessage_Some_cases)
  have "audioPlaybackQueueRef ?s2 = []"
    using assms(2) by (simp add: stopAllPlayback_def accumulate_queue)
  with s3 have "audioPlaybackQueueRef s3 = []" by (rule playOrStatus_queue)
  with fin commitTurn_queue [of s3 s'] show ?thesis by (cases "turnComplete c") simp_all
qed

lemma step_queue:
  assumes "step s e = Inr s'" and "audioPlaybackQueueRef s = []"
  shows "audioPlaybackQueueRef s' = []"
proof (cases e)
  case (Toggle outcome)
  with assms show ?thesis
    by (cases outcome)
       (auto simp: handleToggleSession_def stopSession_def startSession_def onclose_def
          stopAllPlayback_def)
next
  case OnOpen
  with assms show ?thesis by (auto simp: onopen_def)
next
  case (OnMessage m now b)
  with assms show ?thesis using onmessage_queue [of m now b s s'] by simp
next
  case OnClose
  with assms show ?thesis by (auto simp: onclose_def stopAllPlayback_def)
next
  case OnError
  with assms show ?thesis by (auto simp: onerror_def stopAllPlayback_def)
next
  case (SendDrawing url ok)
  with assms show ?thesis by (auto simp: handleSendDrawing_def Let_def split: option.splits)
next
  case (FileSelect ty res ok)
  with assms show ?thesis by (auto simp: handleFileSelect_def Let_def split: option.splits)
next
  case (SourceEnded src)
  with assms show ?thesis by auto
qed

lemma run_queue_empty:
  assumes "run s events = Inr s'" and "audioPlaybackQueueRef s = []"
  shows "audioPlaybackQueueRef s' = []"
  using assms
proof (induction events arbitrary: s)
  case Nil
  then show ?case by simp
next
  case (Cons e events)
  from Cons.prems(1) obtain s1 where s1: "step s e = Inr s1" and r: "run s1 events = Inr s'"
    using run_Cons_Inr by blast
  have "audioPlaybackQueueRef s1 = []" by (rule step_queue [OF s1 Cons.prems(2)])
  with r show ?case by (rule Cons.IH)
qed

section \<open>Transcript reconciler: properties\<close>

text \<open>
  What the commit does, in terms of the two transcripts it touches. It fails exactly when
  the merge test holds of the closure's transcript while the current transcript is
  empty. Without the merge test it appends; with it, and a current transcript that is
  not empty, it rewrites the text of the current last entry. In a first session, where
  the closure holds the empty transcript, it always appends. A commit with both trimmed
  accumulators empty leaves the transcript as it is. Were the closure's transcript the
  current one, the commit would never fail.
\<close>

lemma commitTurn_fails_iff:
  "commitTurn s = Inl TypeError \<longleftrightarrow>
     mergeTest (lastEntryOf (closureTranscript s)) (trim (userTranscriptionRef s))
     \<and> transcript s = []"
  by (simp add: commitTurn_def mergeUpdater_def Let_def)

lemma commitTurn_no_merge:
  assumes "\<not> mergeTest (lastEntryOf (closureTranscript s)) (trim (userTranscriptionRef s))"
  shows "commitTurn s =
           Inr (s\<lparr>transcript := transcript s @
                    newEntriesOf False (trim (userTranscriptionRef s)) (trim (modelTranscriptionRef s)),
                  userTranscriptionRef := [], modelTranscriptionRef := [], status := LISTENING\<rparr>)"
  using assms by (simp add: commitTurn_def Let_def)

lemma commitTurn_merge:
  assumes "mergeTest (lastEntryOf (closureTranscript s)) (trim (userTranscriptionRef s))"
    and "transcript s \<noteq> []"
  shows "commitTurn s =
           Inr (s\<lparr>transcript := butlast (transcript s)
                    @ [(last (transcript s))\<lparr>entry_text := trim (userTranscriptionRef s)\<rparr>]
                    @ newEntriesOf True (trim (userTranscriptionRef s)) (trim (modelTranscriptionRef s)),
                  userTranscriptionRef := [], modelTranscriptionRef := [], status := LISTENING\<rparr>)"
  using assms by (simp add: commitTurn_def mergeUpdater_def Let_def)

lemma commitTurn_first_session:
  assumes "closureTranscript s = []"
  shows "commitTurn s =
           Inr (s\<lparr>transcript := transcript s @
                    newEntriesOf False (trim (userTranscriptionRef s)) (trim (modelTranscriptionRef s)),
                  userTranscriptionRef := [], modelTranscriptionRef := [], status := LISTENING\<rparr>)"
  using assms by (intro commitTurn_no_merge) (simp add: mergeTest_def lastEntryOf_def)

lemma commitTurn_silent:
  assumes "trim (userTranscriptionRef s) = []" and "trim (modelTranscriptionRef s) = []"
    and "commitTurn s = Inr s'"
  shows "transcript s' = transcript s"
proof -
  have "\<not> mergeTest (lastEntryOf (closureTranscript s)) (trim (userTranscriptionRef s))"
    using assms(1) by (simp add: mergeTest_def truthy_def split: option.splits)
  from commitTurn_no_merge [OF this] assms show ?thesis
    by (auto simp: newEntriesOf_def truthy_def)
qed

lemma mergeTest_nonempty: "mergeTest (lastEntryOf entries) u \<Longrightarrow> entries \<noteq> []"
  by (auto simp: mergeTest_def lastEntryOf_def)

lemma commitTurn_current_closure:
  assumes "closureTranscript s = transcript s"
  shows "\<exists>s'. commitTurn s = Inr s'"
proof (cases "mergeTest (lastEntryOf (closureTranscript s)) (trim (userTranscriptionRef s))")
  case True
  with assms have "transcript s \<noteq> []" using mergeTest_nonempty [of "transcript s"] by simp
  from commitTurn_merge [OF True this] show ?thesis by blast
next
  case False
  from commitTurn_no_merge [OF this] show ?thesis by blast
qed

text \<open>
  Claim C1, evaluated on the code. In a first session the closure holds the empty
  transcript. The user sends a drawing, which appends an image-only USER entry, and the
  turn then completes with the user text "what is this". The last entry of the
  transcript is an image-only USER entry and the trimmed user text is not empty, yet the
  commit appends a second USER entry and the image entry keeps its empty text.
\<close>

theorem caption_appended_not_merged:
  "map_sum id transcript (run initialState
        [Toggle Connected, OnOpen, SendDrawing ''data:image/png;base64,iVBOR'' True,
         userFragment ''what is this'', commitSignal])
   = Inr [\<lparr>speaker = USER, entry_text = [], entry_image = Some ''data:image/png;base64,iVBOR''\<rparr>,
          \<lparr>speaker = USER, entry_text = ''what is this'', entry_image = None\<rparr>]"
  by (simp add: model_defs userFragment_def commitSignal_def)

text \<open>
  Claim C2, evaluated on the code. A first session ends with an image-only USER entry as
  the last entry. A second session is started: its callbacks close over that transcript,
  and the current transcript is emptied. The first turn of the second session completes
  with the user text "hi" and no tutor text. The merge test holds of the closure's last
  entry, the updater is applied to the empty transcript and raises a TypeError: the
  commit appends nothing and does not complete.
\<close>

theorem second_session_commit_fails:
  "run initialState
        [Toggle Connected, OnOpen, SendDrawing ''data:image/png;base64,iVBOR'' True,
         Toggle Connected, Toggle Connected, OnOpen,
         userFragment ''hi'', commitSignal]
   = Inl TypeError"
  by (simp add: model_defs userFragment_def commitSignal_def)

text \<open>
  The scenario with an image entry, a user text and a tutor text, in a first session:
  the transcript gains two entries, and the image entry keeps its empty text.
\<close>

lemma caption_scenario_adds_two_entries:
  "map_sum id transcript (run initialState
        [Toggle Connected, OnOpen, SendDrawing ''data:image/png;base64,iVBOR'' True,
         OnMessage (Some \<lparr>inputTranscription = Some ''what is this'',
            outputTranscription = Some ''look closer'', modelTurn = None,
            turnComplete = True, interrupted = False\<rparr>) 0 \<lparr>duration = 0\<rparr>])
   = Inr [\<lparr>speaker = USER, entry_text = [], entry_image = Some ''data:image/png;base64,iVBOR''\<rparr>,
          \<lparr>speaker = USER, entry_text = ''what is this'', entry_image = None\<rparr>,
          \<lparr>speaker = TUTOR, entry_text = ''look closer'', entry_image = None\<rparr>]"
  by (simp add: model_defs)

end
